theory Spec2Isabelle
  imports Complex_Main
begin

text \<open>
  A shallow embedding of the retrieval core of the document assistant: the text chunker,
  the BM25 index, cosine similarity, the hybrid search of the document store, the upload
  route and the cancellation endpoint of the chat route. The first part holds the
  definitions, translated from the TypeScript sources; the second part holds the lemmas and
  the theorems about them.
\<close>


section \<open>Strings\<close>

text \<open>
  A string is a list of characters, and a character is a code unit from 0 to 255, the
  Latin-1 range of the code units of a JavaScript string. The whitespace class of the
  regular expression \<^verbatim>\<open>\s\<close> and of \<^verbatim>\<open>String.prototype.trim\<close> is, in this
  range, tab, line feed, vertical tab, form feed, carriage return, space and the no-break
  space \<open>0xA0\<close>.
\<close>

definition is_space :: "char \<Rightarrow> bool" where
  "is_space c \<longleftrightarrow>
     c \<in> set [CHR 0x09, CHR 0x0A, CHR 0x0B, CHR 0x0C, CHR 0x0D, CHR '' '', CHR 0xA0]"

text \<open>\<^verbatim>\<open>s.trim()\<close>: whitespace removed at both ends.\<close>

definition trim :: "string \<Rightarrow> string" where
  "trim s = rev (dropWhile is_space (rev (dropWhile is_space s)))"

text \<open>\<^verbatim>\<open>s.replace(/\s+/g, ' ')\<close>: every maximal run of whitespace becomes one space.\<close>

function replace_ws :: "string \<Rightarrow> string" where
  "replace_ws [] = []"
| "replace_ws (c # cs) =
     (if is_space c then CHR '' '' # replace_ws (dropWhile is_space cs)
      else c # replace_ws cs)"
  by pat_completeness auto
termination
  by (relation "measure length") (auto simp: less_Suc_eq_le length_dropWhile_le)

text \<open>
  \<^verbatim>\<open>s.substring(a, b)\<close>: both indices are clamped to \<open>[0, length s]\<close> and swapped when
  \<open>a > b\<close>.
\<close>

definition substring :: "string \<Rightarrow> int \<Rightarrow> int \<Rightarrow> string" where
  "substring s a b =
     (let n = int (length s);
          a' = min (max a 0) n;
          b' = min (max b 0) n;
          lo = min a' b';
          hi = max a' b'
      in take (nat (hi - lo)) (drop (nat lo) s))"

text \<open>\<^verbatim>\<open>s.lastIndexOf(p)\<close>: the largest index where \<open>p\<close> occurs in \<open>s\<close>, or \<open>-1\<close>.\<close>

definition lastIndexOf :: "string \<Rightarrow> string \<Rightarrow> int" where
  "lastIndexOf s p =
     (case filter (\<lambda>i. take (length p) (drop i s) = p) (rev [0..<Suc (length s)]) of
        [] \<Rightarrow> - 1
      | i # _ \<Rightarrow> int i)"

text \<open>
  \<^verbatim>\<open>s.toLowerCase()\<close>: the upper-case letters of the range are \<open>A\<close> to \<open>Z\<close>
  and the accented capitals \<open>0xC0\<close> to \<open>0xDE\<close> without the multiplication sign
  \<open>0xD7\<close>; each has its lower-case letter 32 places on. Every other character is left
  as it is.
\<close>

definition lower_char :: "char \<Rightarrow> char" where
  "lower_char c =
     (let n = (of_char c :: nat)
      in if (65 \<le> n \<and> n \<le> 90) \<or> (192 \<le> n \<and> n \<le> 214) \<or> (216 \<le> n \<and> n \<le> 222)
         then char_of (n + 32) else c)"

definition toLowerCase :: "string \<Rightarrow> string" where
  "toLowerCase s = map lower_char s"

text \<open>
  \<^verbatim>\<open>s.split(/\s+/)\<close>: the pieces between the maximal runs of whitespace. A run at the
  start or at the end of the string gives an empty piece there, and the result is never the
  empty list (the empty string gives one empty piece).
\<close>

function split_ws :: "string \<Rightarrow> string list" where
  "split_ws s =
     (let piece = takeWhile (\<lambda>c. \<not> is_space c) s;
          rest = dropWhile (\<lambda>c. \<not> is_space c) s
      in if rest = [] then [piece] else piece # split_ws (dropWhile is_space rest))"
  by pat_completeness auto
termination
proof (relation "measure length")
  show "wf (measure length)" by simp
next
  fix s piece rest :: string
  assume r: "rest = dropWhile (\<lambda>c. \<not> is_space c) s" and ne: "rest \<noteq> []"
  have "is_space (hd rest)"
    using hd_dropWhile [of "\<lambda>c. \<not> is_space c" s] r ne by simp
  then have "dropWhile is_space rest = dropWhile is_space (tl rest)"
    using ne by (cases rest) auto
  then have "length (dropWhile is_space rest) \<le> length (tl rest)"
    using length_dropWhile_le [of is_space "tl rest"] by simp
  also have "\<dots> < length rest" using ne by (cases rest) auto
  also have "\<dots> \<le> length s" by (simp add: r length_dropWhile_le)
  finally show "(dropWhile is_space rest, s) \<in> measure length" by simp
qed

declare split_ws.simps [simp del]

text \<open>
  \<^verbatim>\<open>s.includes(t)\<close>, \<^verbatim>\<open>xs.join(sep)\<close>, \<^verbatim>\<open>s.endsWith(suffix)\<close> and the decimal
  rendering of a natural number in a template string.
\<close>

definition str_includes :: "string \<Rightarrow> string \<Rightarrow> bool" where
  "str_includes s t \<longleftrightarrow> list_ex (\<lambda>i. take (length t) (drop i s) = t) [0..<Suc (length s)]"

fun join :: "string \<Rightarrow> string list \<Rightarrow> string" where
  "join sep [] = []"
| "join sep [x] = x"
| "join sep (x # y # ys) = x @ sep @ join sep (y # ys)"

definition endsWith :: "string \<Rightarrow> string \<Rightarrow> bool" where
  "endsWith s suffix \<longleftrightarrow>
     length suffix \<le> length s \<and> drop (length s - length suffix) s = suffix"

fun decimal :: "nat \<Rightarrow> string" where
  "decimal n = (if n < 10 then [char_of (48 + n)] else decimal (n div 10) @ [char_of (48 + n mod 10)])"

declare decimal.simps [simp del]

text \<open>
  The word class \<^verbatim>\<open>\w\<close>: digits, letters and the underscore.
\<close>

definition is_word :: "char \<Rightarrow> bool" where
  "is_word c \<longleftrightarrow>
     (let n = (of_char c :: nat)
      in (48 \<le> n \<and> n \<le> 57) \<or> (65 \<le> n \<and> n \<le> 90) \<or> n = 95 \<or> (97 \<le> n \<and> n \<le> 122))"

text \<open>
  The number of non-overlapping occurrences of \<open>p\<close> in a string, scanning from the left:
  what \<^verbatim>\<open>text.match(new RegExp(p, 'g'))\<close> counts when every character of \<open>p\<close> stands
  for itself. It is only used with patterns of length at least 3.
\<close>

fun count_occ :: "string \<Rightarrow> string \<Rightarrow> nat" where
  "count_occ p [] = 0"
| "count_occ p (c # cs) =
     (if take (length p) (c # cs) = p then Suc (count_occ p (drop (length p - 1) cs))
      else count_occ p cs)"

section \<open>Numbers, errors and arrays\<close>

text \<open>
  A JavaScript number is modelled as an exact real number, or one of the three special
  values of IEEE arithmetic: the operations below follow the IEEE rules for NaN and the
  infinities (\<open>0 / 0\<close> is NaN, \<open>x / 0\<close> is an infinity, \<open>x / \<plusminus>\<infinity>\<close> is \<open>0\<close>, the
  logarithm of \<open>0\<close> is \<open>-\<infinity>\<close> and that of a negative number is NaN). Rounding
  and the sign of zero are not modelled: a zero divisor is taken as \<open>+0\<close>, which is
  what the divisors of this program are (counts, square roots and sums of squares).
\<close>

datatype jsnum = Num real | PInf | NInf | NaN

fun js_neg :: "jsnum \<Rightarrow> jsnum" where
  "js_neg (Num x) = Num (- x)"
| "js_neg PInf = NInf"
| "js_neg NInf = PInf"
| "js_neg NaN = NaN"

fun js_add :: "jsnum \<Rightarrow> jsnum \<Rightarrow> jsnum" where
  "js_add (Num x) (Num y) = Num (x + y)"
| "js_add NaN _ = NaN"
| "js_add _ NaN = NaN"
| "js_add PInf NInf = NaN"
| "js_add NInf PInf = NaN"
| "js_add PInf _ = PInf"
| "js_add _ PInf = PInf"
| "js_add NInf _ = NInf"
| "js_add _ NInf = NInf"

definition js_sub :: "jsnum \<Rightarrow> jsnum \<Rightarrow> jsnum" where
  "js_sub a b = js_add a (js_neg b)"

definition signed_inf :: "bool \<Rightarrow> jsnum" where
  "signed_inf positive = (if positive then PInf else NInf)"

fun js_mul :: "jsnum \<Rightarrow> jsnum \<Rightarrow> jsnum" where
  "js_mul (Num x) (Num y) = Num (x * y)"
| "js_mul NaN _ = NaN"
| "js_mul _ NaN = NaN"
| "js_mul PInf (Num y) = (if y = 0 then NaN else signed_inf (0 < y))"
| "js_mul NInf (Num y) = (if y = 0 then NaN else signed_inf (y < 0))"
| "js_mul (Num x) PInf = (if x = 0 then NaN else signed_inf (0 < x))"
| "js_mul (Num x) NInf = (if x = 0 then NaN else signed_inf (x < 0))"
| "js_mul PInf PInf = PInf"
| "js_mul NInf NInf = PInf"
| "js_mul PInf NInf = NInf"
| "js_mul NInf PInf = NInf"

fun js_div :: "jsnum \<Rightarrow> jsnum \<Rightarrow> jsnum" where
  "js_div (Num x) (Num y) =
     (if y \<noteq> 0 then Num (x / y) else if x = 0 then NaN else signed_inf (0 < x))"
| "js_div NaN _ = NaN"
| "js_div _ NaN = NaN"
| "js_div (Num x) PInf = Num 0"
| "js_div (Num x) NInf = Num 0"
| "js_div PInf (Num y) = signed_inf (0 \<le> y)"
| "js_div NInf (Num y) = signed_inf (y < 0)"
| "js_div _ _ = NaN"

fun js_sqrt :: "jsnum \<Rightarrow> jsnum" where
  "js_sqrt (Num x) = (if x < 0 then NaN else Num (sqrt x))"
| "js_sqrt PInf = PInf"
| "js_sqrt _ = NaN"

fun js_log :: "jsnum \<Rightarrow> jsnum" where
  "js_log (Num x) = (if x < 0 then NaN else if x = 0 then NInf else Num (ln x))"
| "js_log PInf = PInf"
| "js_log _ = NaN"

fun js_gt :: "jsnum \<Rightarrow> jsnum \<Rightarrow> bool" where
  "js_gt (Num x) (Num y) \<longleftrightarrow> y < x"
| "js_gt NaN _ \<longleftrightarrow> False"
| "js_gt _ NaN \<longleftrightarrow> False"
| "js_gt PInf PInf \<longleftrightarrow> False"
| "js_gt PInf _ \<longleftrightarrow> True"
| "js_gt _ PInf \<longleftrightarrow> False"
| "js_gt NInf _ \<longleftrightarrow> False"
| "js_gt _ NInf \<longleftrightarrow> True"

text \<open>
  \<open>js_ge a b\<close>: neither value is NaN and \<open>a\<close> is not below \<open>b\<close>. It is the order in
  which a list sorted in descending order has its elements.
\<close>

definition js_ge :: "jsnum \<Rightarrow> jsnum \<Rightarrow> bool" where
  "js_ge a b \<longleftrightarrow> a \<noteq> NaN \<and> b \<noteq> NaN \<and> \<not> js_gt b a"

text \<open>
  The range of a double: \<open>fl\<close> sends a result from \<open>2^1024 - 2^970\<close> on to the
  infinity of its sign (overflow) and a result of magnitude up to \<open>2^-1075\<close> to zero
  (underflow), as rounding to the nearest double does; every other result is left as it is.
  It is applied where the operands are not bounded, in \<^verbatim>\<open>cosineSimilarity\<close>.
\<close>

definition fl :: "real \<Rightarrow> jsnum" where
  "fl x =
     (if 2 ^ 1024 - 2 ^ 970 \<le> \<bar>x\<bar> then signed_inf (0 < x)
      else if \<bar>x\<bar> \<le> 1 / 2 ^ 1075 then Num 0
      else Num x)"

definition fl_num :: "jsnum \<Rightarrow> jsnum" where
  "fl_num v = (case v of Num x \<Rightarrow> fl x | _ \<Rightarrow> v)"

text \<open>
  The errors that the modelled code throws: \<^verbatim>\<open>Vectors must have the same length\<close> of
  \<^verbatim>\<open>cosineSimilarity\<close>, the syntax error of the \<^verbatim>\<open>RegExp\<close> constructor, and the
  errors of the file parser and of the embedding call.
\<close>

datatype js_error =
  VectorLengthError | RegExpSyntaxError | UnsupportedFileType | PdfParseFailed | TextParseFailed |
  EmbeddingFailed

text \<open>
  \<^verbatim>\<open>xs.sort(cmp)\<close> as the engine of Node.js sorts an array of fewer than 64
  elements. The comparator returns a number, and a NaN result counts as \<open>0\<close>.
  \<open>count_and_make_run\<close> takes the longest run at the start of the array that is
  non-descending, or strictly descending and then reversed; every later element is put
  into the run by binary insertion, behind the elements it does not compare below. For a
  comparator that orders the elements consistently this is the stable sort that
  ECMAScript requires. \<open>binary_search\<close> reads the array only below \<open>right\<close>, which
  is at most the length of the array.
\<close>

definition order_negative :: "jsnum \<Rightarrow> bool" where
  "order_negative v \<longleftrightarrow> js_gt (Num 0) v"

fun run_length :: "('a \<Rightarrow> 'a \<Rightarrow> jsnum) \<Rightarrow> bool \<Rightarrow> 'a \<Rightarrow> 'a list \<Rightarrow> nat" where
  "run_length cmp isDescending previousElement [] = 0"
| "run_length cmp isDescending previousElement (currentElement # rest) =
     (if order_negative (cmp currentElement previousElement) = isDescending
      then Suc (run_length cmp isDescending currentElement rest)
      else 0)"

definition count_and_make_run :: "('a \<Rightarrow> 'a \<Rightarrow> jsnum) \<Rightarrow> 'a list \<Rightarrow> nat \<times> 'a list" where
  "count_and_make_run cmp xs =
     (case xs of
        elementHigh # elementLow # rest \<Rightarrow>
          (let isDescending = order_negative (cmp elementLow elementHigh);
               runLength = 2 + run_length cmp isDescending elementLow rest
           in (runLength,
               if isDescending then rev (take runLength xs) @ drop runLength xs else xs))
      | _ \<Rightarrow> (length xs, xs))"

function binary_search :: "('a \<Rightarrow> 'a \<Rightarrow> jsnum) \<Rightarrow> 'a \<Rightarrow> 'a list \<Rightarrow> nat \<Rightarrow> nat \<Rightarrow> nat" where
  "binary_search cmp pivot arr left right =
     (if left < right then
        (let mid = left + (right - left) div 2 in
         if order_negative (cmp pivot (arr ! mid)) then binary_search cmp pivot arr left mid
         else binary_search cmp pivot arr (mid + 1) right)
      else left)"
  by pat_completeness auto
termination
  by (relation "measure (\<lambda>(cmp, pivot, arr, left, right). right - left)") auto

declare binary_search.simps [simp del]

definition binary_insert :: "('a \<Rightarrow> 'a \<Rightarrow> jsnum) \<Rightarrow> 'a list \<Rightarrow> 'a \<Rightarrow> 'a list" where
  "binary_insert cmp arr pivot =
     (let left = binary_search cmp pivot arr 0 (length arr)
      in take left arr @ pivot # drop left arr)"

definition sort_short :: "('a \<Rightarrow> 'a \<Rightarrow> jsnum) \<Rightarrow> 'a list \<Rightarrow> 'a list" where
  "sort_short cmp xs =
     (if length xs < 2 then xs
      else
        (case count_and_make_run cmp xs of
           (runLength, arr) \<Rightarrow> foldl (binary_insert cmp) (take runLength arr) (drop runLength arr)))"

text \<open>
  How the engine merges the runs of an array of 64 elements or more is a parameter of the
  model.
\<close>

type_synonym 'a sort_engine = "('a \<Rightarrow> 'a \<Rightarrow> jsnum) \<Rightarrow> 'a list \<Rightarrow> 'a list"

definition js_sort :: "'a sort_engine \<Rightarrow> ('a \<Rightarrow> 'a \<Rightarrow> jsnum) \<Rightarrow> 'a list \<Rightarrow> 'a list" where
  "js_sort long_sort cmp xs = (if length xs < 64 then sort_short cmp xs else long_sort cmp xs)"

text \<open>
  \<^verbatim>\<open>xs.slice(0, k)\<close>: the first \<open>k\<close> elements; a negative \<open>k\<close> counts from the end
  of the array.
\<close>

definition slice0 :: "'a list \<Rightarrow> int \<Rightarrow> 'a list" where
  "slice0 xs k = (if k < 0 then take (nat (int (length xs) + k)) xs else take (nat k) xs)"

section \<open>The chunker (\<^verbatim>\<open>textChunker.ts\<close>)\<close>

text \<open>
  \<^verbatim>\<open>const normalizedText = text.replace(/\s+/g, ' ').trim()\<close>
\<close>

definition normalizeText :: "string \<Rightarrow> string" where
  "normalizeText text = trim (replace_ws text)"

text \<open>
  The end index of the chunk that starts at \<open>startIndex\<close>: the body of the loop of
  \<^verbatim>\<open>chunkText\<close> up to the extraction of the chunk. The search window for a sentence
  ending is the last 200 characters of the candidate chunk; an ending found at index 0 of
  the window is not used (\<^verbatim>\<open>lastSentenceEnd > 0\<close>).
\<close>

definition cut_end :: "string \<Rightarrow> int \<Rightarrow> int \<Rightarrow> int" where
  "cut_end txt maxChunkSize startIndex =
     (let endIndex = startIndex + maxChunkSize in
      if endIndex < int (length txt) then
        (let searchStart = max startIndex (endIndex - 200);
             searchText = substring txt searchStart endIndex;
             lastPeriod = lastIndexOf searchText ''. '';
             lastExclamation = lastIndexOf searchText ''! '';
             lastQuestion = lastIndexOf searchText ''? '';
             lastSentenceEnd = max (max lastPeriod lastExclamation) lastQuestion
         in if lastSentenceEnd > 0 then searchStart + lastSentenceEnd + 2 else endIndex)
      else int (length txt))"

text \<open>
  The \<^verbatim>\<open>while (startIndex < normalizedText.length)\<close> loop. It is defined as a partial
  function: \<open>None\<close> stands for a loop that never ends, so that termination is a theorem
  and not an assumption of the definition.
\<close>

partial_function (option) chunk_loop ::
  "string \<Rightarrow> int \<Rightarrow> int \<Rightarrow> int \<Rightarrow> string list \<Rightarrow> string list option" where
  "chunk_loop txt maxChunkSize overlapSize startIndex chunks =
     (if startIndex < int (length txt) then
        (let endIndex = cut_end txt maxChunkSize startIndex;
             chunk = trim (substring txt startIndex endIndex);
             chunks' = (if length chunk > 0 then chunks @ [chunk] else chunks);
             nextStart = endIndex - overlapSize
         in chunk_loop txt maxChunkSize overlapSize
              (if nextStart \<le> startIndex then endIndex else nextStart) chunks')
      else Some chunks)"

declare chunk_loop.simps [code]

text \<open>
  \<^verbatim>\<open>chunkText(text, {maxChunkSize, overlapSize})\<close>; the defaults of the options are
  1000 and 200. The two sizes and all indices are integers.
\<close>

definition chunkText :: "string \<Rightarrow> int \<Rightarrow> int \<Rightarrow> string list option" where
  "chunkText text maxChunkSize overlapSize =
     (if text = [] \<or> length (trim text) = 0 then Some []
      else
        (let normalizedText = normalizeText text in
         if int (length normalizedText) \<le> maxChunkSize then Some [normalizedText]
         else chunk_loop normalizedText maxChunkSize overlapSize 0 []))"

text \<open>
  The start index that one iteration of the loop computes from \<open>startIndex\<close>
  (lemma \<open>chunk_loop_step\<close> below shows that this is the value the loop continues with).
\<close>

definition next_start :: "string \<Rightarrow> int \<Rightarrow> int \<Rightarrow> int \<Rightarrow> int" where
  "next_start txt maxChunkSize overlapSize startIndex =
     (let endIndex = cut_end txt maxChunkSize startIndex;
          nextStart = endIndex - overlapSize
      in if nextStart \<le> startIndex then endIndex else nextStart)"

section \<open>Cosine similarity (\<^verbatim>\<open>embeddings.ts\<close>)\<close>

text \<open>
  The loop of \<^verbatim>\<open>cosineSimilarity\<close> over the indices of two vectors of the same length,
  with its three accumulators. The components of the vectors are finite numbers; every
  product, sum, square root and quotient is brought into the range of a double.
\<close>

fun cos_loop ::
  "real list \<Rightarrow> real list \<Rightarrow> jsnum \<times> jsnum \<times> jsnum \<Rightarrow> jsnum \<times> jsnum \<times> jsnum" where
  "cos_loop (a # vecA) (b # vecB) (dotProduct, normA, normB) =
     cos_loop vecA vecB
       (fl_num (js_add dotProduct (fl (a * b))),
        fl_num (js_add normA (fl (a * a))),
        fl_num (js_add normB (fl (b * b))))"
| "cos_loop _ _ acc = acc"

definition cosineSimilarity :: "real list \<Rightarrow> real list \<Rightarrow> js_error + jsnum" where
  "cosineSimilarity vecA vecB =
     (if length vecA \<noteq> length vecB then Inl VectorLengthError
      else
        (case cos_loop vecA vecB (Num 0, Num 0, Num 0) of
           (dotProduct, normA, normB) \<Rightarrow>
             Inr (fl_num (js_div dotProduct
                    (fl_num (js_mul (fl_num (js_sqrt normA)) (fl_num (js_sqrt normB))))))))"

section \<open>The BM25 index (\<^verbatim>\<open>bm25.ts\<close>)\<close>

text \<open>
  \<^verbatim>\<open>tokenize\<close>: lower case, every character that is neither a word character nor
  whitespace replaced by a space, split at whitespace, tokens of length at most 2 dropped.
\<close>

definition tokenize :: "string \<Rightarrow> string list" where
  "tokenize text =
     filter (\<lambda>token. length token > 2)
       (split_ws (map (\<lambda>c. if \<not> is_word c \<and> \<not> is_space c then CHR '' '' else c)
          (toLowerCase text)))"

text \<open>
  The state of a \<^verbatim>\<open>BM25\<close> object. \<^verbatim>\<open>docFrequencies\<close> is only read with
  \<^verbatim>\<open>get\<close>, so the map is a partial function.
\<close>

record BM25Document =
  bm_id :: string
  bm_content :: string
  tokens :: "string list"

record BM25 =
  bm_documents :: "BM25Document list"
  avgDocLength :: jsnum
  docFrequencies :: "string \<rightharpoonup> nat"

definition bm25_k1 :: real where "bm25_k1 = 1.5"

definition bm25_b :: real where "bm25_b = 0.75"

text \<open>
  \<^verbatim>\<open>calculateDocFrequencies\<close>: for every document and every distinct token of it, the
  identifier of the document is added to the set of the token; the frequency of a token is
  the size of its set. \<open>unique\<close> lists the elements of \<^verbatim>\<open>new Set(doc.tokens)\<close> in
  the order of their first occurrence.
\<close>

definition unique :: "'a list \<Rightarrow> 'a list" where
  "unique xs = rev (remdups (rev xs))"

definition add_term_doc :: "string \<Rightarrow> string \<Rightarrow> (string \<rightharpoonup> string set) \<Rightarrow> (string \<rightharpoonup> string set)" where
  "add_term_doc docId term termDocCount =
     (let m = (if termDocCount term = None then termDocCount(term \<mapsto> {}) else termDocCount)
      in m(term \<mapsto> insert docId (case m term of None \<Rightarrow> {} | Some docSet \<Rightarrow> docSet)))"

definition calculateDocFrequencies :: "BM25Document list \<Rightarrow> (string \<rightharpoonup> nat)" where
  "calculateDocFrequencies docs =
     (let termDocCount =
            fold (\<lambda>doc m. fold (add_term_doc (bm_id doc)) (unique (tokens doc)) m) docs Map.empty
      in (\<lambda>term. map_option card (termDocCount term)))"

text \<open>The constructor.\<close>

definition BM25_new :: "(string \<times> string) list \<Rightarrow> BM25" where
  "BM25_new docs =
     (let ds = map (\<lambda>(i, text). \<lparr>bm_id = i, bm_content = text, tokens = tokenize text\<rparr>) docs;
          totalLength = fold (\<lambda>doc sum. sum + length (tokens doc)) ds 0
      in \<lparr>bm_documents = ds,
          avgDocLength = js_div (Num (real totalLength)) (Num (real (length ds))),
          docFrequencies = calculateDocFrequencies ds\<rparr>)"

text \<open>\<^verbatim>\<open>idf\<close> and \<^verbatim>\<open>score\<close> (the loop over the query tokens).\<close>

definition idf :: "BM25 \<Rightarrow> string \<Rightarrow> jsnum" where
  "idf idx term =
     (let docFreq = (case docFrequencies idx term of None \<Rightarrow> 0 | Some n \<Rightarrow> n);
          N = length (bm_documents idx)
      in js_log (js_add (js_div (Num (real N - real docFreq + 0.5)) (Num (real docFreq + 0.5)))
                        (Num 1)))"

definition term_freq :: "string list \<Rightarrow> string \<Rightarrow> nat" where
  "term_freq docTokens queryTerm = length (filter (\<lambda>t. t = queryTerm) docTokens)"

fun score_loop :: "BM25 \<Rightarrow> string list \<Rightarrow> nat \<Rightarrow> string list \<Rightarrow> jsnum \<Rightarrow> jsnum" where
  "score_loop idx docTokens docLength [] acc = acc"
| "score_loop idx docTokens docLength (queryTerm # queryTokens) acc =
     (let termFreq = term_freq docTokens queryTerm in
      if termFreq = 0 then score_loop idx docTokens docLength queryTokens acc
      else
        (let idfScore = idf idx queryTerm;
             lengthNorm = js_div (Num (real docLength)) (avgDocLength idx);
             numerator = Num (real termFreq * (bm25_k1 + 1));
             denominator =
               js_add (Num (real termFreq))
                 (js_mul (Num bm25_k1) (js_add (Num (1 - bm25_b)) (js_mul (Num bm25_b) lengthNorm)))
         in score_loop idx docTokens docLength queryTokens
              (js_add acc (js_mul idfScore (js_div numerator denominator)))))"

definition bm25_score :: "BM25 \<Rightarrow> string list \<Rightarrow> string list \<Rightarrow> nat \<Rightarrow> jsnum" where
  "bm25_score idx docTokens queryTokens docLength = score_loop idx docTokens docLength queryTokens (Num 0)"

section \<open>The document store (\<^verbatim>\<open>documentStore.ts\<close>)\<close>

subsection \<open>Keyword score\<close>

text \<open>
  \<^verbatim>\<open>new RegExp(term, 'gi')\<close> reads the query term as a pattern. When no character of the
  term is a pattern metacharacter, every character stands for itself, and on the lower-cased
  text the matches are the non-overlapping occurrences of the term (in the Latin-1 range
  no two lower-cased characters are equal up to case). What the engine does
  with any other term (a different set of matches, or a syntax error) is a parameter
  \<open>rx\<close> of the model.
\<close>

definition regex_meta :: "char \<Rightarrow> bool" where
  "regex_meta c \<longleftrightarrow> c \<in> set (CHR 0x5C # ''^$.*+?()[]{}|'')"

type_synonym regex_engine = "string \<Rightarrow> string \<Rightarrow> js_error + nat"

definition match_count :: "regex_engine \<Rightarrow> string \<Rightarrow> string \<Rightarrow> js_error + nat" where
  "match_count rx term textLower =
     (if \<exists>c\<in>set term. regex_meta c then rx term textLower
      else Inr (count_occ term textLower))"

text \<open>
  The loop of \<^verbatim>\<open>calculateKeywordScore\<close> over the query terms, with the accumulators
  \<^verbatim>\<open>score\<close> and \<^verbatim>\<open>matchedTerms\<close>, and the function itself. All its numbers are
  finite: the logarithm is taken of numbers from 2 on and the divisors are at least 1.
\<close>

fun keyword_loop ::
  "regex_engine \<Rightarrow> string \<Rightarrow> string list \<Rightarrow> real \<times> nat \<Rightarrow> js_error + real \<times> nat" where
  "keyword_loop rx textLower [] acc = Inr acc"
| "keyword_loop rx textLower (term # queryTerms) (score, matchedTerms) =
     (if length term < 3 then keyword_loop rx textLower queryTerms (score, matchedTerms)
      else
        (case match_count rx term textLower of
           Inl e \<Rightarrow> Inl e
         | Inr termFreq \<Rightarrow>
             if termFreq > 0
             then keyword_loop rx textLower queryTerms
                    (score + ln (1 + real termFreq), matchedTerms + 1)
             else keyword_loop rx textLower queryTerms (score, matchedTerms)))"

definition calculateKeywordScore :: "regex_engine \<Rightarrow> string \<Rightarrow> string \<Rightarrow> js_error + real" where
  "calculateKeywordScore rx query text =
     (let queryTerms = split_ws (toLowerCase query);
          textLower = toLowerCase text
      in case keyword_loop rx textLower queryTerms (0, 0) of
           Inl e \<Rightarrow> Inl e
         | Inr (score, matchedTerms) \<Rightarrow>
             (let coverage =
                (if length queryTerms > 0 then real matchedTerms / real (length queryTerms)
                 else 0)
              in Inr (min 1 (score / max 1 (real (length queryTerms)) * 0.5 + coverage * 0.5))))"

subsection \<open>Documents, chunks and the store\<close>

text \<open>
  The \<^verbatim>\<open>Map\<close> of documents is a list of pairs in insertion order, as the iteration
  of a \<^verbatim>\<open>Map\<close> is. The persistence collaborator is represented by the list
  \<open>saved\<close> of the snapshots that \<^verbatim>\<open>saveDocuments\<close> has been called with.
\<close>

record DocumentChunk =
  chunk_id :: string
  documentId :: string
  documentTitle :: string
  content :: string
  embedding :: "real list"
  chunkIndex :: nat

record Document =
  doc_id :: string
  title :: string
  doc_content :: string
  fileType :: string
  uploadedAt :: nat
  chunks :: "DocumentChunk list"

record SearchResult =
  chunk :: DocumentChunk
  score :: jsnum
  vectorScore :: jsnum
  keywordScore :: real
  explanation :: string

record DocumentStore =
  documents :: "(string \<times> Document) list"
  saved :: "Document list list"

definition map_has :: "'k \<Rightarrow> ('k \<times> 'v) list \<Rightarrow> bool" where
  "map_has k m \<longleftrightarrow> k \<in> fst ` set m"

definition map_set :: "'k \<Rightarrow> 'v \<Rightarrow> ('k \<times> 'v) list \<Rightarrow> ('k \<times> 'v) list" where
  "map_set k v m =
     (if map_has k m then map (\<lambda>(k', v'). if k' = k then (k, v) else (k', v')) m
      else m @ [(k, v)])"

definition map_delete :: "'k \<Rightarrow> ('k \<times> 'v) list \<Rightarrow> ('k \<times> 'v) list" where
  "map_delete k m = filter (\<lambda>(k', v'). k' \<noteq> k) m"

definition map_values :: "('k \<times> 'v) list \<Rightarrow> 'v list" where
  "map_values m = map snd m"

definition persist :: "DocumentStore \<Rightarrow> DocumentStore" where
  "persist s = s\<lparr>saved := saved s @ [map_values (documents s)]\<rparr>"

definition add_document :: "Document \<Rightarrow> DocumentStore \<Rightarrow> DocumentStore" where
  "add_document document s = persist (s\<lparr>documents := map_set (doc_id document) document (documents s)\<rparr>)"

definition delete_document :: "string \<Rightarrow> DocumentStore \<Rightarrow> bool \<times> DocumentStore" where
  "delete_document i s =
     (let result = map_has i (documents s);
          s' = s\<lparr>documents := map_delete i (documents s)\<rparr>
      in (result, if result then persist s' else s'))"

definition getAllChunks :: "DocumentStore \<Rightarrow> DocumentChunk list" where
  "getAllChunks s = concat (map chunks (map_values (documents s)))"

subsection \<open>Hybrid search\<close>

definition generateExplanation :: "jsnum \<Rightarrow> real \<Rightarrow> string \<Rightarrow> string \<Rightarrow> string" where
  "generateExplanation vScore kScore query text =
     (let semantic =
            (if js_gt vScore (Num 0.8) then [''Very high semantic match'']
             else if js_gt vScore (Num 0.6) then [''Good semantic relevance'']
             else if js_gt vScore (Num 0.4) then [''Moderate semantic relevance'']
             else []);
          keyword =
            (if kScore > 0.5 then
               (let queryTerms = filter (\<lambda>t. length t \<ge> 3) (split_ws (toLowerCase query));
                    matchedTerms = filter (\<lambda>term. str_includes (toLowerCase text) term) queryTerms
                in if length matchedTerms > 0
                   then [''Contains: '' @ [CHR 0x22] @
                         join ([CHR 0x22] @ '', '' @ [CHR 0x22]) (take 2 matchedTerms) @ [CHR 0x22]]
                   else [])
             else []);
          reasons = semantic @ keyword
      in if length reasons > 0 then join ''; '' reasons else ''Related content'')"

text \<open>
  The loop of \<^verbatim>\<open>hybridSearch\<close> over all chunks. An error thrown by
  \<^verbatim>\<open>cosineSimilarity\<close> or by the regular expression ends the search.
\<close>

fun search_loop ::
  "regex_engine \<Rightarrow> string \<Rightarrow> real list \<Rightarrow> DocumentChunk list \<Rightarrow> SearchResult list \<Rightarrow>
   js_error + SearchResult list" where
  "search_loop rx query queryEmbedding [] results = Inr results"
| "search_loop rx query queryEmbedding (c # allChunks) results =
     (case cosineSimilarity queryEmbedding (embedding c) of
        Inl e \<Rightarrow> Inl e
      | Inr vScore \<Rightarrow>
          (case calculateKeywordScore rx query (content c) of
             Inl e \<Rightarrow> Inl e
           | Inr kScore \<Rightarrow>
               (let combinedScore = js_add (js_mul (Num 0.6) vScore) (js_mul (Num 0.4) (Num kScore));
                    generateExplanation_example = generateExplanation vScore kScore query (content c)
                in search_loop rx query queryEmbedding allChunks
                     (results @ [\<lparr>chunk = c, score = combinedScore, vectorScore = vScore,
                                  keywordScore = kScore, explanation = generateExplanation_example\<rparr>]))))"

definition hybridSearch ::
  "regex_engine \<Rightarrow> SearchResult sort_engine \<Rightarrow> DocumentStore \<Rightarrow> string \<Rightarrow> real list \<Rightarrow> int \<Rightarrow>
   js_error + SearchResult list" where
  "hybridSearch rx long_sort s query queryEmbedding topK =
     (let allChunks = getAllChunks s in
      if length allChunks = 0 then Inr []
      else
        (case search_loop rx query queryEmbedding allChunks [] of
           Inl e \<Rightarrow> Inl e
         | Inr results \<Rightarrow>
             Inr (slice0 (js_sort long_sort (\<lambda>a b. js_sub (score b) (score a)) results) topK)))"

section \<open>The upload route (\<^verbatim>\<open>api/upload/route.ts\<close>)\<close>

text \<open>
  An uploaded file, with the outcome of reading it as text and of extracting the text of a
  PDF (\<open>None\<close>: the call throws), and \<^verbatim>\<open>parseFile\<close> and \<^verbatim>\<open>getFileType\<close> of the
  file parser.
\<close>

record UploadFile =
  file_name :: string
  file_type :: string
  file_size :: nat
  file_text :: "string option"
  pdf_text :: "string option"

definition parsePDF :: "UploadFile \<Rightarrow> js_error + string" where
  "parsePDF file = (case pdf_text file of None \<Rightarrow> Inl PdfParseFailed | Some text \<Rightarrow> Inr text)"

definition parseText :: "UploadFile \<Rightarrow> js_error + string" where
  "parseText file = (case file_text file of None \<Rightarrow> Inl TextParseFailed | Some text \<Rightarrow> Inr text)"

definition parseFile :: "UploadFile \<Rightarrow> js_error + string" where
  "parseFile file =
     (let fileType = file_type file;
          fileName = toLowerCase (file_name file)
      in if fileType = ''application/pdf'' \<or> endsWith fileName ''.pdf'' then parsePDF file
         else if fileType = ''text/plain'' \<or> endsWith fileName ''.txt'' then parseText file
         else if fileType = ''text/markdown'' \<or> endsWith fileName ''.md'' then parseText file
         else Inl UnsupportedFileType)"

definition getFileType :: "UploadFile \<Rightarrow> string" where
  "getFileType file =
     (let fileName = toLowerCase (file_name file)
      in if endsWith fileName ''.pdf'' then ''PDF''
         else if endsWith fileName ''.txt'' then ''TXT''
         else if endsWith fileName ''.md'' then ''Markdown''
         else ''Unknown'')"

text \<open>
  What the handler takes from its environment: the clock, the random suffix of the
  document identifier, and the embedding provider, which returns one vector for each text
  of a batch, in order, or fails for the whole batch. \<^verbatim>\<open>generateEmbeddings\<close> sends
  batches of 100 texts.
\<close>

record UploadEnv =
  date_now :: nat
  random_suffix :: string
  upload_date :: nat
  embed_text :: "string \<Rightarrow> real list"
  embed_fails :: "string list \<Rightarrow> bool"

function embeddings_loop ::
  "UploadEnv \<Rightarrow> string list \<Rightarrow> nat \<Rightarrow> real list list \<Rightarrow> js_error + real list list" where
  "embeddings_loop env texts i embeddings =
     (if i < length texts then
        (let batch = take 100 (drop i texts) in
         if embed_fails env batch then Inl EmbeddingFailed
         else embeddings_loop env texts (i + 100) (embeddings @ map (embed_text env) batch))
      else Inr embeddings)"
  by pat_completeness auto
termination
  by (relation "measure (\<lambda>(env, texts, i, embeddings). length texts - i)") auto

declare embeddings_loop.simps [simp del]

definition generateEmbeddings :: "UploadEnv \<Rightarrow> string list \<Rightarrow> js_error + real list list" where
  "generateEmbeddings env texts = embeddings_loop env texts 0 []"

text \<open>
  The responses of the handler and the handler \<^verbatim>\<open>POST\<close>. The result is \<open>None\<close>
  when the chunker does not return.
\<close>

datatype upload_error =
  NoFileProvided | FileTooLarge | EmptyFile | TooManyChunks nat | ProcessingFailed js_error

datatype upload_response = JsonError nat upload_error | JsonSuccess Document

definition upload_POST ::
  "UploadEnv \<Rightarrow> UploadFile option \<Rightarrow> DocumentStore \<Rightarrow> (upload_response \<times> DocumentStore) option" where
  "upload_POST env formFile store =
     (case formFile of
        None \<Rightarrow> Some (JsonError 400 NoFileProvided, store)
      | Some file \<Rightarrow>
          if file_size file > 10 * 1024 * 1024 then Some (JsonError 400 FileTooLarge, store)
          else
            (case parseFile file of
               Inl e \<Rightarrow> Some (JsonError 500 (ProcessingFailed e), store)
             | Inr text \<Rightarrow>
                 if text = [] \<or> length (trim text) = 0 then Some (JsonError 400 EmptyFile, store)
                 else
                   (case chunkText text 1000 200 of
                      None \<Rightarrow> None
                    | Some textChunks \<Rightarrow>
                        if length textChunks > 1000
                        then Some (JsonError 400 (TooManyChunks (length textChunks)), store)
                        else
                          (let documentId =
                                 ''doc_'' @ decimal (date_now env) @ ''_'' @ random_suffix env
                           in case generateEmbeddings env textChunks of
                                Inl e \<Rightarrow> Some (JsonError 500 (ProcessingFailed e), store)
                              | Inr embeddings \<Rightarrow>
                                  (let cs =
                                         map (\<lambda>(chunkContent, index).
                                                \<lparr>chunk_id = documentId @ ''_chunk_'' @ decimal index,
                                                 documentId = documentId,
                                                 documentTitle = file_name file,
                                                 content = chunkContent,
                                                 embedding = embeddings ! index,
                                                 chunkIndex = index\<rparr>)
                                           (zip textChunks [0..<length textChunks]);
                                       document =
                                         \<lparr>doc_id = documentId, title = file_name file,
                                          doc_content = text, fileType = getFileType file,
                                          uploadedAt = upload_date env, chunks = cs\<rparr>
                                   in Some (JsonSuccess document, add_document document store))))))"

section \<open>The cancellation endpoint (\<^verbatim>\<open>api/chat/route.ts\<close>)\<close>

text \<open>
  \<^verbatim>\<open>activeRequests\<close> maps a request identifier to an abort controller. Controllers are
  objects with an identity, here a number, and \<open>aborted\<close> is the set of the controllers
  whose signal has been tripped. \<open>chat_register\<close> is the registration at the start of
  \<^verbatim>\<open>POST\<close>, \<open>chat_cleanup\<close> the removal when the stream ends.
\<close>

datatype http_response = Response nat string

record ChatState =
  activeRequests :: "string \<rightharpoonup> nat"
  aborted :: "nat set"
  nextController :: nat

definition chat_register :: "string \<Rightarrow> ChatState \<Rightarrow> nat \<times> ChatState" where
  "chat_register requestId s =
     (let controller = nextController s;
          s' = s\<lparr>nextController := Suc controller\<rparr>
      in (controller,
          if requestId \<noteq> [] then s'\<lparr>activeRequests := (activeRequests s')(requestId \<mapsto> controller)\<rparr>
          else s'))"

definition chat_cleanup :: "string \<Rightarrow> ChatState \<Rightarrow> ChatState" where
  "chat_cleanup requestId s =
     (if requestId \<noteq> [] then s\<lparr>activeRequests := (activeRequests s)(requestId := None)\<rparr> else s)"

definition chat_DELETE :: "string \<Rightarrow> ChatState \<Rightarrow> http_response \<times> ChatState" where
  "chat_DELETE requestId s =
     (case activeRequests s requestId of
        Some controller \<Rightarrow>
          (Response 200 ''Request cancelled'',
           s\<lparr>aborted := insert controller (aborted s),
             activeRequests := (activeRequests s)(requestId := None)\<rparr>)
      | None \<Rightarrow> (Response 404 ''Request not found'', s))"

section \<open>The keyword score as the specification words it\<close>



section \<open>Notions used in the proofs\<close>

definition df_inv :: "string set \<Rightarrow> (string \<rightharpoonup> string set) \<Rightarrow> bool" where
  "df_inv ids m \<longleftrightarrow> (\<forall>t s. m t = Some s \<longrightarrow> s \<subseteq> ids)"

definition bm25_term :: "real \<Rightarrow> real \<Rightarrow> nat \<Rightarrow> nat \<Rightarrow> real" where
  "bm25_term v a docLength termFreq =
     (if termFreq = 0 then 0
      else v * (real termFreq * (bm25_k1 + 1) /
                (real termFreq + bm25_k1 * (1 - bm25_b + bm25_b * (real docLength / a)))))"

section \<open>Example data\<close>

definition no_regex :: regex_engine where
  "no_regex pattern text = Inl RegExpSyntaxError"

definition keep_order :: "'a sort_engine" where
  "keep_order cmp xs = xs"

definition spaced_text :: string where
  "spaced_text = [CHR '' '', CHR ''a'', CHR ''b'', CHR 0xA0, CHR 0x09, CHR ''c'', CHR '' '']"

definition mk_chunk :: "string \<Rightarrow> string \<Rightarrow> real list \<Rightarrow> DocumentChunk" where
  "mk_chunk i text e =
     \<lparr>chunk_id = i, documentId = ''d'', documentTitle = ''t'', content = text, embedding = e,
      chunkIndex = 0\<rparr>"

definition store3 :: DocumentStore where
  "store3 =
     \<lparr>documents =
        [(''d'', \<lparr>doc_id = ''d'', title = ''t'', doc_content = ''aaa'', fileType = ''TXT'',
                  uploadedAt = 0,
                  chunks = [mk_chunk ''c0'' ''aaa'' [0, 1], mk_chunk ''c1'' ''bbb'' [0, 0],
                            mk_chunk ''c2'' ''ccc'' [1, 0]]\<rparr>)],
      saved = []\<rparr>"

definition two_docs :: "(string \<times> string) list" where
  "two_docs = [(''a'', ''the cat sat''), (''b'', ''dog and cat'')]"

definition doc_a :: BM25Document where
  "doc_a = \<lparr>bm_id = ''a'', bm_content = ''the cat sat'', tokens = [''the'', ''cat'', ''sat'']\<rparr>"

definition one_doc_store :: DocumentStore where
  "one_doc_store =
     \<lparr>documents =
        [(''d1'', \<lparr>doc_id = ''d1'', title = ''t'', doc_content = ''aaa'', fileType = ''TXT'',
                   uploadedAt = 0, chunks = []\<rparr>)],
      saved = []\<rparr>"

definition empty_store :: DocumentStore where
  "empty_store = \<lparr>documents = [], saved = []\<rparr>"

definition chat_init :: ChatState where
  "chat_init = \<lparr>activeRequests = Map.empty, aborted = {}, nextController = 0\<rparr>"

definition filler :: char where "filler = CHR ''a''"

definition big_file :: UploadFile where
  "big_file =
     \<lparr>file_name = ''big.txt'', file_type = ''text/plain'', file_size = 802000,
      file_text = Some (replicate 802000 filler), pdf_text = None\<rparr>"

definition quiet_env :: UploadEnv where
  "quiet_env =
     \<lparr>date_now = 0, random_suffix = ''x'', upload_date = 0, embed_text = (\<lambda>text. []),
      embed_fails = (\<lambda>batch. False)\<rparr>"

section \<open>Properties of the chunker\<close>

lemma trim_Nil_iff: "trim s = [] \<longleftrightarrow> (\<forall>c\<in>set s. is_space c)"
proof
  assume "trim s = []"
  then have "\<forall>c\<in>set (dropWhile is_space s). is_space c"
    by (simp add: trim_def dropWhile_eq_Nil_conv)
  then have "dropWhile is_space s = []"
    by (metis hd_dropWhile list.set_sel(1))
  then show "\<forall>c\<in>set s. is_space c"
    by (simp add: dropWhile_eq_Nil_conv)
next
  assume "\<forall>c\<in>set s. is_space c"
  then have "dropWhile is_space s = []"
    by (metis dropWhile_eq_Nil_conv)
  then show "trim s = []"
    by (simp only: trim_def) simp
qed

lemma trim_Cons:
  assumes "trim s \<noteq> []"
  shows "\<exists>c r. trim s = c # r \<and> \<not> is_space c"
proof -
  have "\<exists>x\<in>set s. \<not> is_space x"
    using assms by (auto simp: trim_Nil_iff)
  then have d: "dropWhile is_space s \<noteq> []"
    by (metis dropWhile_eq_Nil_conv)
  then obtain c d' where cd: "dropWhile is_space s = c # d'"
    by (cases "dropWhile is_space s") auto
  have nc: "\<not> is_space c"
    using hd_dropWhile [OF d] cd by simp
  have "\<exists>zs. dropWhile is_space (rev d' @ [c]) = zs @ [c]"
    using nc by (simp add: dropWhile_append)
  then obtain zs where "dropWhile is_space (rev (dropWhile is_space s)) = zs @ [c]"
    using cd by auto
  then have "trim s = c # rev zs" by (simp add: trim_def)
  with nc show ?thesis by blast
qed

lemma dropWhile_keeps:
  assumes "x \<in> set xs" and "\<not> P x"
  shows "x \<in> set (dropWhile P xs)"
  using assms by (induction xs) auto

lemma replace_ws_spaces:
  "\<forall>c\<in>set s. is_space c \<Longrightarrow> \<forall>c\<in>set (replace_ws s). is_space c"
proof (induction s rule: replace_ws.induct)
  case 1
  show ?case by simp
next
  case (2 c cs)
  have sp: "is_space c" using 2(3) by simp
  have "\<forall>x\<in>set (dropWhile is_space cs). is_space x"
    using 2(3) by (meson list.set_intros(2) set_dropWhileD)
  with 2(1) sp have "\<forall>x\<in>set (replace_ws (dropWhile is_space cs)). is_space x"
    by blast
  with sp show ?case by (simp add: is_space_def)
qed

lemma replace_ws_keeps:
  "x \<in> set s \<Longrightarrow> \<not> is_space x \<Longrightarrow> x \<in> set (replace_ws s)"
proof (induction s rule: replace_ws.induct)
  case 1
  then show ?case by simp
next
  case (2 c cs)
  show ?case
  proof (cases "is_space c")
    case True
    with 2(3,4) have "x \<in> set cs" by auto
    then have "x \<in> set (dropWhile is_space cs)" using 2(4) by (rule dropWhile_keeps)
    with 2(1) [OF True] 2(4) True show ?thesis by simp
  next
    case False
    with 2(2) [OF False] 2(3,4) show ?thesis by auto
  qed
qed

lemma normalize_nonempty_trim:
  assumes "normalizeText text \<noteq> []"
  shows "trim text \<noteq> []"
proof
  assume "trim text = []"
  then have "\<forall>c\<in>set text. is_space c" by (simp add: trim_Nil_iff)
  then have "\<forall>c\<in>set (replace_ws text). is_space c" by (rule replace_ws_spaces)
  then have "normalizeText text = []" by (simp add: normalizeText_def trim_Nil_iff)
  with assms show False by simp
qed

lemma normalize_nonempty:
  assumes "\<exists>c\<in>set text. \<not> is_space c"
  shows "normalizeText text \<noteq> []"
proof -
  from assms obtain c where "c \<in> set text" "\<not> is_space c" by blast
  then have "c \<in> set (replace_ws text)" by (rule replace_ws_keeps)
  with \<open>\<not> is_space c\<close> show ?thesis
    by (auto simp: normalizeText_def trim_Nil_iff)
qed

lemma cut_end_gt:
  assumes "0 < maxChunkSize" and "startIndex < int (length txt)"
  shows "startIndex < cut_end txt maxChunkSize startIndex"
proof (cases "startIndex + maxChunkSize < int (length txt)")
  case False
  with assms(2) show ?thesis by (simp add: cut_end_def)
next
  case True
  define searchStart where "searchStart = max startIndex (startIndex + maxChunkSize - 200)"
  define lse where
    "lse = max (max (lastIndexOf (substring txt searchStart (startIndex + maxChunkSize)) ''. '')
       (lastIndexOf (substring txt searchStart (startIndex + maxChunkSize)) ''! ''))
       (lastIndexOf (substring txt searchStart (startIndex + maxChunkSize)) ''? '')"
  have c: "cut_end txt maxChunkSize startIndex =
      (if lse > 0 then searchStart + lse + 2 else startIndex + maxChunkSize)"
    using True by (simp add: cut_end_def Let_def searchStart_def lse_def)
  have "startIndex \<le> searchStart" by (simp add: searchStart_def)
  with assms(1) show ?thesis unfolding c by simp
qed

lemma next_start_gt:
  assumes "0 < maxChunkSize" and "startIndex < int (length txt)"
  shows "startIndex < next_start txt maxChunkSize overlapSize startIndex"
  using cut_end_gt [OF assms] by (auto simp: next_start_def Let_def)

lemma chunk_loop_step:
  "startIndex < int (length txt) \<Longrightarrow>
   chunk_loop txt maxChunkSize overlapSize startIndex acc =
   chunk_loop txt maxChunkSize overlapSize (next_start txt maxChunkSize overlapSize startIndex)
     (let piece = trim (substring txt startIndex (cut_end txt maxChunkSize startIndex))
      in if length piece > 0 then acc @ [piece] else acc)"
  by (subst chunk_loop.simps) (simp add: next_start_def Let_def)

lemma chunk_loop_done:
  "\<not> startIndex < int (length txt) \<Longrightarrow>
   chunk_loop txt maxChunkSize overlapSize startIndex acc = Some acc"
  by (subst chunk_loop.simps) simp

text \<open>
  With a positive chunk size the loop returns, and what it returns extends the chunks
  collected so far. The induction is on the distance from the start index to the end of
  the text, which every iteration makes smaller.
\<close>

lemma chunk_loop_returns:
  assumes "0 < maxChunkSize"
  shows "\<exists>ys. chunk_loop txt maxChunkSize overlapSize startIndex acc = Some (acc @ ys)"
proof (induction "nat (int (length txt) - startIndex)" arbitrary: startIndex acc
    rule: less_induct)
  case less
  show ?case
  proof (cases "startIndex < int (length txt)")
    case False
    then show ?thesis by (simp add: chunk_loop_done)
  next
    case True
    let ?s = "next_start txt maxChunkSize overlapSize startIndex"
    let ?c = "trim (substring txt startIndex (cut_end txt maxChunkSize startIndex))"
    let ?acc = "if length ?c > 0 then acc @ [?c] else acc"
    have "startIndex < ?s" using assms True by (rule next_start_gt)
    with True have "nat (int (length txt) - ?s) < nat (int (length txt) - startIndex)"
      by simp
    from less [OF this, of ?acc]
    obtain ys where "chunk_loop txt maxChunkSize overlapSize ?s ?acc = Some (?acc @ ys)"
      by blast
    then have "chunk_loop txt maxChunkSize overlapSize startIndex acc = Some (?acc @ ys)"
      using True by (simp add: chunk_loop_step Let_def)
    then show ?thesis by (cases "length ?c > 0") auto
  qed
qed

lemma first_chunk_nonempty:
  assumes "txt = c # r" and "\<not> is_space c" and "0 < endIndex"
  shows "trim (substring txt 0 endIndex) \<noteq> []"
proof -
  have "0 < nat (min endIndex (int (length txt)))"
    using assms(1,3) by simp
  then obtain k where k: "nat (min endIndex (int (length txt))) = Suc k"
    by (cases "nat (min endIndex (int (length txt)))") auto
  have "substring txt 0 endIndex = take (nat (min endIndex (int (length txt)))) txt"
    using assms(3) by (simp add: substring_def Let_def max_def min_def)
  then have "substring txt 0 endIndex = c # take k r"
    using k assms(1) by simp
  then show ?thesis
    using assms(2) by (auto simp: trim_Nil_iff)
qed

subsection \<open>C3: a short text is one chunk\<close>

text \<open>
  C3. For every text whose whitespace-normalized form (whitespace runs collapsed to single
  spaces, then trimmed) is non-empty and has length at most \<open>maxChunkSize\<close>,
  \<open>chunkText\<close> returns exactly one chunk, and that chunk is the normalized text.
\<close>

theorem chunkText_single_chunk:
  assumes "normalizeText text \<noteq> []"
    and "int (length (normalizeText text)) \<le> maxChunkSize"
  shows "chunkText text maxChunkSize overlapSize = Some [normalizeText text]"
proof -
  have t: "trim text \<noteq> []" using assms(1) by (rule normalize_nonempty_trim)
  then have "text \<noteq> []" by (auto simp: trim_def)
  with t assms(2) show ?thesis by (simp add: chunkText_def)
qed

theorem chunkText_single_chunk_witness:
  "normalizeText spaced_text \<noteq> [] \<and>
   int (length (normalizeText spaced_text)) \<le> 1000 \<and>
   chunkText spaced_text 1000 200 = Some [''ab c'']"
proof -
  have n: "normalizeText spaced_text = ''ab c''" by code_simp
  have h1: "normalizeText spaced_text \<noteq> []" by (simp add: n)
  have h2: "int (length (normalizeText spaced_text)) \<le> 1000" by (simp add: n)
  show ?thesis
    using chunkText_single_chunk [OF h1 h2, of 200] h1 h2 by (simp add: n)
qed

text \<open>A string that is one no-break space is whitespace only.\<close>

lemma chunkText_no_break_space: "chunkText [CHR 0xA0] 1000 200 = Some []"
  by code_simp

subsection \<open>C4: the chunker terminates\<close>

text \<open>
  C4. \<open>chunkText\<close> terminates for every input text, \<open>maxChunkSize > 0\<close> and
  \<open>overlapSize \<ge> 0\<close>: it returns a list of chunks, and every iteration of the loop
  strictly advances the start index, because the start index becomes the end index whenever
  \<open>endIndex - overlapSize\<close> would not pass the previous start.
\<close>

theorem chunkText_terminates:
  assumes "0 < maxChunkSize" and "0 \<le> overlapSize"
  shows "(\<exists>result. chunkText text maxChunkSize overlapSize = Some result) \<and>
         (\<forall>startIndex. startIndex < int (length (normalizeText text)) \<longrightarrow>
            startIndex < next_start (normalizeText text) maxChunkSize overlapSize startIndex)"
proof
  show "\<exists>result. chunkText text maxChunkSize overlapSize = Some result"
    using chunk_loop_returns [OF assms(1), of "normalizeText text" overlapSize 0 "[]"]
    by (auto simp: chunkText_def Let_def)
next
  show "\<forall>startIndex. startIndex < int (length (normalizeText text)) \<longrightarrow>
            startIndex < next_start (normalizeText text) maxChunkSize overlapSize startIndex"
    using assms(1) by (simp add: next_start_gt)
qed

theorem chunkText_terminates_witness:
  "(0::int) < 8 \<and> (0::int) \<le> 2 \<and>
   chunkText ''aaa. bbb. ccc ddd eee'' 8 2 =
     Some [''aaa.'', ''. bbb.'', ''. ccc dd'', ''ddd eee'', ''ee''] \<and>
   (3::int) < int (length (normalizeText ''aaa. bbb. ccc ddd eee'')) \<and>
   3 < next_start (normalizeText ''aaa. bbb. ccc ddd eee'') 8 2 3"
proof -
  have v: "chunkText ''aaa. bbb. ccc ddd eee'' 8 2 =
     Some [''aaa.'', ''. bbb.'', ''. ccc dd'', ''ddd eee'', ''ee'']"
    by code_simp
  have n: "normalizeText ''aaa. bbb. ccc ddd eee'' = ''aaa. bbb. ccc ddd eee''"
    by code_simp
  have l: "(3::int) < int (length (normalizeText ''aaa. bbb. ccc ddd eee''))"
    by (simp add: n)
  have "3 < next_start (normalizeText ''aaa. bbb. ccc ddd eee'') 8 2 3"
    using chunkText_terminates [of 8 2 "''aaa. bbb. ccc ddd eee''"] l by simp
  with v l show ?thesis by simp
qed

subsection \<open>C5: a text with a visible character gives at least one chunk\<close>

text \<open>
  C5, as stated: for every non-empty input string, \<open>chunkText\<close> returns a non-empty
  sequence of chunks. The guard \<^verbatim>\<open>text.trim().length === 0\<close> returns the empty
  sequence for a string of whitespace, which is a non-empty string.
\<close>

theorem chunkText_whitespace_counterexample:
  "''   '' \<noteq> [] \<and> chunkText ''   '' 1000 200 = Some []"
  by code_simp

text \<open>
  C5, amended: for every input string with at least one non-whitespace character and every
  positive \<open>maxChunkSize\<close>, \<open>chunkText\<close> returns a non-empty sequence of chunks.
\<close>

theorem chunkText_nonempty:
  assumes "\<exists>c\<in>set text. \<not> is_space c" and "0 < maxChunkSize"
  shows "\<exists>result. chunkText text maxChunkSize overlapSize = Some result \<and> result \<noteq> []"
proof -
  let ?n = "normalizeText text"
  have n: "?n \<noteq> []" using assms(1) by (rule normalize_nonempty)
  have t: "text \<noteq> []" "trim text \<noteq> []"
    using assms(1) by (auto simp: trim_Nil_iff)
  show ?thesis
  proof (cases "int (length ?n) \<le> maxChunkSize")
    case True
    with t n show ?thesis by (simp add: chunkText_def)
  next
    case False
    from n obtain c r where cr: "?n = c # r" "\<not> is_space c"
      using trim_Cons [of "replace_ws text"] by (auto simp: normalizeText_def)
    have pos: "(0::int) < int (length ?n)" using n by simp
    have e: "0 < cut_end ?n maxChunkSize 0"
      using assms(2) pos by (rule cut_end_gt)
    let ?c = "trim (substring ?n 0 (cut_end ?n maxChunkSize 0))"
    have c: "?c \<noteq> []" using cr e by (rule first_chunk_nonempty)
    obtain ys where "chunk_loop ?n maxChunkSize overlapSize
        (next_start ?n maxChunkSize overlapSize 0) ([] @ [?c]) = Some (([] @ [?c]) @ ys)"
      using chunk_loop_returns [OF assms(2)] by blast
    then have "chunk_loop ?n maxChunkSize overlapSize 0 [] = Some (?c # ys)"
      using pos c by (simp add: chunk_loop_step Let_def)
    with False t show ?thesis by (simp add: chunkText_def Let_def)
  qed
qed

theorem chunkText_nonempty_witness:
  "(\<exists>c\<in>set ''aaa. bbb. ccc ddd eee''. \<not> is_space c) \<and> (0::int) < 8 \<and>
   (\<exists>result. chunkText ''aaa. bbb. ccc ddd eee'' 8 2 = Some result \<and> result \<noteq> [])"
proof -
  have h: "\<exists>c\<in>set ''aaa. bbb. ccc ddd eee''. \<not> is_space c"
    by (simp add: is_space_def)
  show ?thesis
    using chunkText_nonempty [OF h, of 8 2] h by simp
qed

section \<open>Properties of cosine similarity\<close>

text \<open>
  Values of \<^verbatim>\<open>cosineSimilarity\<close>: a vector with itself, a vector of zeros, and
  components whose square overflows or underflows.
\<close>

lemma fl_small: "fl 0 = Num 0" "fl 1 = Num 1"
  by (simp_all add: fl_def)

lemma cosineSimilarity_same: "cosineSimilarity [1, 0] [1, 0] = Inr (Num 1)"
  by (simp add: cosineSimilarity_def fl_small fl_num_def)

lemma cosineSimilarity_zero_vector: "cosineSimilarity [1, 0] [0, 0] = Inr NaN"
  by (simp add: cosineSimilarity_def fl_small fl_num_def)

lemma cosineSimilarity_overflow: "cosineSimilarity [10 ^ 200, 0] [10 ^ 200, 0] = Inr NaN"
  by (simp add: cosineSimilarity_def fl_def fl_num_def signed_inf_def)

lemma cosineSimilarity_underflow: "cosineSimilarity [1 / 10 ^ 200] [1 / 10 ^ 200] = Inr NaN"
  by (simp add: cosineSimilarity_def fl_def fl_num_def)

subsection \<open>C7: the only error is the length mismatch\<close>

text \<open>
  C7. \<open>cosineSimilarity a b\<close> fails if and only if the lengths of \<open>a\<close> and \<open>b\<close>
  differ, and the error is then the length-mismatch error; for every pair of vectors of
  equal length it returns a value and raises no error.
\<close>

theorem cosineSimilarity_error_iff:
  "((\<exists>e. cosineSimilarity vecA vecB = Inl e) \<longleftrightarrow> length vecA \<noteq> length vecB) \<and>
   (length vecA \<noteq> length vecB \<longrightarrow> cosineSimilarity vecA vecB = Inl VectorLengthError) \<and>
   (length vecA = length vecB \<longrightarrow> (\<exists>v. cosineSimilarity vecA vecB = Inr v))"
  by (auto simp: cosineSimilarity_def split: prod.splits)

theorem cosineSimilarity_error_iff_witness:
  "(\<exists>e. cosineSimilarity [1, 0] [1] = Inl e) \<and> length [1, 0 :: real] \<noteq> length [1 :: real] \<and>
   cosineSimilarity [1, 0] [1] = Inl VectorLengthError \<and>
   length [1, 0 :: real] = length [0, 1 :: real] \<and> cosineSimilarity [1, 0] [0, 1] = Inr (Num 0)"
proof -
  have "cosineSimilarity [1, 0] [0, 1] = Inr (Num 0)"
    by (simp add: cosineSimilarity_def fl_small fl_num_def)
  then show ?thesis
    using cosineSimilarity_error_iff [of "[1, 0]" "[1]"] cosineSimilarity_error_iff [of "[1, 0]" "[0, 1]"]
    by simp
qed

section \<open>Properties of the keyword score\<close>

lemma toLowerCase_latin1: "toLowerCase (''Ab'' @ [CHR 0xC9, CHR 0xD7, CHR 0xDE, CHR 0xDF]) =
    ''ab'' @ [CHR 0xE9, CHR 0xD7, CHR 0xFE, CHR 0xDF]"
  by code_simp

lemma split_ws_no_break_space: "split_ws (''cat'' @ [CHR 0xA0] @ ''dog'') = [''cat'', ''dog'']"
  by code_simp









subsection \<open>C2: the keyword score and the formula of the specification\<close>




section \<open>Properties of the hybrid search\<close>

text \<open>
  The sort on five scores with a NaN among them: the run \<open>0.1, 0.5\<close> is descending for
  the comparator and is reversed, the NaN stays behind it, and \<open>0.9\<close> and \<open>0.3\<close> are
  inserted by binary search.
\<close>

lemma sort_short_example:
  "sort_short (\<lambda>a b. js_sub b a) [Num (1 / 10), Num (1 / 2), NaN, Num (9 / 10), Num (3 / 10)] =
     [Num (9 / 10), Num (1 / 2), Num (3 / 10), Num (1 / 10), NaN]"
  by (simp add: sort_short_def count_and_make_run_def order_negative_def js_sub_def
      binary_insert_def binary_search.simps Let_def)

lemmas search_defs = hybridSearch_def getAllChunks_def map_values_def mk_chunk_def
      cosineSimilarity_def fl_def fl_num_def calculateKeywordScore_def toLowerCase_def lower_char_def
      split_ws.simps is_space_def js_sort_def sort_short_def count_and_make_run_def
      order_negative_def slice0_def js_sub_def match_count_def regex_meta_def
      generateExplanation_def

lemma generateExplanation_example: "generateExplanation (Num 0.9) 0.7 ''the Cat sat'' ''a cat. SAT'' =
   ''Very high semantic match; Contains: '' @ [CHR 0x22] @ ''cat'' @ [CHR 0x22] @ '', '' @ [CHR 0x22] @ ''sat'' @ [CHR 0x22]"
  by code_simp

subsection \<open>C1: the order of the results\<close>

text \<open>
  C1. For every corpus and every query with its embedding, the list returned by
  \<open>hybridSearch\<close> is sorted by combined score in descending order, has at most \<open>topK\<close>
  results, and every result has the combined score \<open>0.6 * vectorScore + 0.4 * keywordScore\<close>.
  The code does not keep the order for a corpus of three chunks with the embeddings
  \<open>[0, 1]\<close>, \<open>[0, 0]\<close> and \<open>[1, 0]\<close> and the query embedding \<open>[1, 0]\<close>: the
  similarity of the vector of zeros is \<open>0 / 0\<close>, which is NaN and not a value between
  \<open>-1\<close> and \<open>1\<close>; the combined score of its chunk is NaN, the comparator
  \<^verbatim>\<open>(a, b) => b.score - a.score\<close> is NaN against both neighbours, the array counts as
  one run, and the returned scores are \<open>0\<close>, NaN, \<open>3/5\<close>.
\<close>

theorem hybridSearch_zero_embedding_unsorted:
  "cosineSimilarity [1, 0] [0, 0] = Inr NaN \<and>
   map_sum id (map score) (hybridSearch no_regex keep_order store3 ''zzz'' [1, 0] 3) =
     Inr [Num 0, NaN, Num (3 / 5)] \<and>
   \<not> sorted_wrt js_ge [Num 0, NaN, Num (3 / 5)]"
  by (simp add: search_defs store3_def js_ge_def)

section \<open>Properties of the BM25 index\<close>

lemma fold_total_length:
  "fold (\<lambda>doc sum. sum + length (tokens doc)) ds n = n + sum_list (map (\<lambda>doc. length (tokens doc)) ds)"
  by (induction ds arbitrary: n) auto

lemma bm_documents_new:
  "bm_documents (BM25_new docs) =
     map (\<lambda>(i, text). \<lparr>bm_id = i, bm_content = text, tokens = tokenize text\<rparr>) docs"
  by (simp add: BM25_new_def Let_def)

lemma avgDocLength_new:
  "avgDocLength (BM25_new docs) =
     js_div (Num (real (sum_list (map (\<lambda>doc. length (tokens doc)) (bm_documents (BM25_new docs))))))
            (Num (real (length (bm_documents (BM25_new docs)))))"
  by (simp add: BM25_new_def Let_def fold_total_length)

lemma docFrequencies_new:
  "docFrequencies (BM25_new docs) = calculateDocFrequencies (bm_documents (BM25_new docs))"
  by (simp add: BM25_new_def Let_def)

lemma avgDocLength_pos:
  assumes "doc \<in> set (bm_documents (BM25_new docs))" and "tokens doc \<noteq> []"
  shows "\<exists>a. avgDocLength (BM25_new docs) = Num a \<and> 0 < a"
proof -
  let ?ds = "bm_documents (BM25_new docs)"
  have "length (tokens doc) \<le> sum_list (map (\<lambda>doc. length (tokens doc)) ?ds)"
    using assms(1) by (simp add: member_le_sum_list)
  then have t: "0 < sum_list (map (\<lambda>doc. length (tokens doc)) ?ds)"
    using assms(2) by (cases "tokens doc") auto
  have n: "0 < length ?ds" using assms(1) by (cases ?ds) auto
  show ?thesis
    using t n by (simp add: avgDocLength_new)
qed

text \<open>
  No token is counted in more documents than the index has, so that the inverse document
  frequency is the logarithm of a number from 1 on.
\<close>

lemma add_term_doc_inv:
  assumes "df_inv ids m" and "i \<in> ids"
  shows "df_inv ids (add_term_doc i t m)"
  using assms by (auto simp: df_inv_def add_term_doc_def Let_def split: if_splits option.splits)

lemma fold_add_term_doc_inv:
  assumes "df_inv ids m" and "i \<in> ids"
  shows "df_inv ids (fold (add_term_doc i) ts m)"
  using assms(1) by (induction ts arbitrary: m) (auto simp: add_term_doc_inv assms(2))

lemma fold_docs_inv:
  assumes "df_inv ids m" and "bm_id ` set ds \<subseteq> ids"
  shows "df_inv ids (fold (\<lambda>doc m. fold (add_term_doc (bm_id doc)) (unique (tokens doc)) m) ds m)"
  using assms by (induction ds arbitrary: m) (auto simp: fold_add_term_doc_inv)

lemma docFrequencies_le:
  assumes "calculateDocFrequencies ds t = Some n"
  shows "n \<le> length ds"
proof -
  let ?m = "fold (\<lambda>doc m. fold (add_term_doc (bm_id doc)) (unique (tokens doc)) m) ds Map.empty"
  have "df_inv (bm_id ` set ds) Map.empty" by (simp add: df_inv_def)
  then have inv: "df_inv (bm_id ` set ds) ?m" by (rule fold_docs_inv) simp
  from assms obtain s where s: "?m t = Some s" "n = card s"
    by (auto simp: calculateDocFrequencies_def Let_def)
  then have "s \<subseteq> bm_id ` set ds" using inv by (auto simp: df_inv_def)
  then have "card s \<le> card (bm_id ` set ds)" by (simp add: card_mono)
  also have "\<dots> \<le> card (set ds)" by (simp add: card_image_le)
  also have "\<dots> \<le> length ds" by (rule card_length)
  finally show ?thesis using s(2) by simp
qed

lemma idf_nonneg:
  "\<exists>v. idf (BM25_new docs) t = Num v \<and> 0 \<le> v"
proof -
  let ?idx = "BM25_new docs"
  define df where "df = (case docFrequencies ?idx t of None \<Rightarrow> 0 | Some n \<Rightarrow> n)"
  define N where "N = length (bm_documents ?idx)"
  have le: "df \<le> N"
    unfolding df_def N_def
    by (auto simp: docFrequencies_new split: option.splits dest: docFrequencies_le)
  have r: "0 \<le> (real N - real df + 0.5) / (real df + 0.5)"
    using le by simp
  have "idf ?idx t = Num (ln ((real N - real df + 0.5) / (real df + 0.5) + 1))"
    using r by (simp add: idf_def Let_def df_def N_def add_nonneg_eq_0_iff)
  moreover have "0 \<le> ln ((real N - real df + 0.5) / (real df + 0.5) + 1)"
    using r by simp
  ultimately show ?thesis by blast
qed

lemma bm25_term_mono:
  assumes "0 \<le> v" and "0 < a" and "m \<le> n"
  shows "bm25_term v a l m \<le> bm25_term v a l n"
proof (cases "m = 0")
  case True
  have "0 \<le> bm25_term v a l n"
    using assms(1,2) by (simp add: bm25_term_def bm25_k1_def bm25_b_def)
  with True show ?thesis by (simp add: bm25_term_def)
next
  case False
  define K where "K = bm25_k1 * (1 - bm25_b + bm25_b * (real l / a))"
  have K: "0 \<le> K" using assms(2) by (simp add: K_def bm25_k1_def bm25_b_def)
  have m: "0 < real m" and n: "0 < real n" and mn: "real m \<le> real n"
    using False assms(3) by auto
  have c: "0 < bm25_k1 + 1" by (simp add: bm25_k1_def)
  have "K * real m \<le> K * real n"
    using mn K by (rule mult_left_mono)
  then have "real m * (real n + K) \<le> real n * (real m + K)"
    by (simp add: algebra_simps)
  then have "real m / (real m + K) \<le> real n / (real n + K)"
    using m n K by (simp add: frac_le_eq divide_le_0_iff algebra_simps)
  then have "real m / (real m + K) * (bm25_k1 + 1) \<le> real n / (real n + K) * (bm25_k1 + 1)"
    using c by (intro mult_right_mono) auto
  then have "real m * (bm25_k1 + 1) / (real m + K) \<le> real n * (bm25_k1 + 1) / (real n + K)"
    by (simp only: times_divide_eq_left)
  then have "v * (real m * (bm25_k1 + 1) / (real m + K)) \<le> v * (real n * (bm25_k1 + 1) / (real n + K))"
    using assms(1) by (rule mult_left_mono)
  then show ?thesis
    using False m n by (simp add: bm25_term_def K_def)
qed

lemma score_loop_real:
  assumes "avgDocLength idx = Num a" and "0 < a"
    and "\<And>t. idf idx t = Num (v t)"
  shows "score_loop idx d l q (Num acc) =
           Num (acc + (\<Sum>t\<leftarrow>q. bm25_term (v t) a l (term_freq d t)))"
proof (induction q arbitrary: acc)
  case Nil
  show ?case by simp
next
  case (Cons t q)
  show ?case
  proof (cases "term_freq d t = 0")
    case True
    then show ?thesis by (simp add: Cons bm25_term_def)
  next
    case False
    have pos: "real (term_freq d t) + bm25_k1 * (1 - bm25_b + bm25_b * (real l / a)) \<noteq> 0"
    proof -
      have "0 \<le> bm25_k1 * (1 - bm25_b + bm25_b * (real l / a))"
        using assms(2) by (simp add: bm25_k1_def bm25_b_def)
      moreover have "0 < real (term_freq d t)" using False by simp
      ultimately show ?thesis by linarith
    qed
    show ?thesis
      using False pos assms(1,2) by (simp add: Let_def assms(3) Cons bm25_term_def)
  qed
qed

lemma score_loop_no_match:
  assumes "\<forall>t\<in>set q. term_freq d t = 0"
  shows "score_loop idx d l q acc = acc"
  using assms by (induction q arbitrary: acc) auto

lemma term_freq_pos_nonempty: "0 < term_freq d t \<Longrightarrow> d \<noteq> []"
  by (auto simp: term_freq_def)

lemma two_docs_index: "doc_a \<in> set (bm_documents (BM25_new two_docs))"
  by (simp add: bm_documents_new two_docs_def doc_a_def tokenize_def toLowerCase_def lower_char_def
      is_word_def is_space_def split_ws.simps)

subsection \<open>C6: the score is monotone in the term frequency\<close>

text \<open>
  C6. For every corpus, every list of query tokens and every chunk of the corpus: when the
  tokens of the chunk are replaced by a token list of the same length in which no query
  token occurs less often, while the index built from the corpus (corpus size, document
  frequencies, average document length) stays as it is, the BM25 score of the chunk does not
  decrease. Both scores are real numbers.
\<close>

theorem bm25_score_monotone:
  assumes "doc \<in> set (bm_documents (BM25_new docs))"
    and "length docTokens' = length (tokens doc)"
    and "\<forall>t\<in>set queryTokens. term_freq (tokens doc) t \<le> term_freq docTokens' t"
  shows "\<exists>x y. bm25_score (BM25_new docs) (tokens doc) queryTokens (length (tokens doc)) = Num x \<and>
               bm25_score (BM25_new docs) docTokens' queryTokens (length docTokens') = Num y \<and>
               x \<le> y"
proof (cases "\<forall>t\<in>set queryTokens. term_freq docTokens' t = 0")
  case True
  with assms(3) have "\<forall>t\<in>set queryTokens. term_freq (tokens doc) t = 0" by auto
  with True show ?thesis
    by (simp add: bm25_score_def score_loop_no_match)
next
  case False
  then obtain t where "0 < term_freq docTokens' t" by auto
  then have "docTokens' \<noteq> []" by (rule term_freq_pos_nonempty)
  with assms(2) have "tokens doc \<noteq> []" by auto
  with assms(1) obtain a where a: "avgDocLength (BM25_new docs) = Num a" "0 < a"
    using avgDocLength_pos by blast
  obtain v where v: "\<And>t. idf (BM25_new docs) t = Num (v t) \<and> 0 \<le> v t"
    using idf_nonneg [of docs] by metis
  let ?l = "length (tokens doc)"
  have x: "bm25_score (BM25_new docs) (tokens doc) queryTokens ?l =
      Num (0 + (\<Sum>t\<leftarrow>queryTokens. bm25_term (v t) a ?l (term_freq (tokens doc) t)))"
    unfolding bm25_score_def using a v by (intro score_loop_real) auto
  have y: "bm25_score (BM25_new docs) docTokens' queryTokens (length docTokens') =
      Num (0 + (\<Sum>t\<leftarrow>queryTokens. bm25_term (v t) a ?l (term_freq docTokens' t)))"
    unfolding bm25_score_def assms(2) using a v by (intro score_loop_real) auto
  have "(\<Sum>t\<leftarrow>queryTokens. bm25_term (v t) a ?l (term_freq (tokens doc) t)) \<le>
        (\<Sum>t\<leftarrow>queryTokens. bm25_term (v t) a ?l (term_freq docTokens' t))"
    using assms(3) a(2) v by (intro sum_list_mono bm25_term_mono) auto
  with x y show ?thesis by simp
qed

theorem bm25_score_monotone_witness:
  "doc_a \<in> set (bm_documents (BM25_new two_docs)) \<and>
   length [''cat'', ''cat'', ''sat''] = length (tokens doc_a) \<and>
   term_freq (tokens doc_a) ''cat'' = 1 \<and> term_freq [''cat'', ''cat'', ''sat''] ''cat'' = 2 \<and>
   (\<exists>x y. bm25_score (BM25_new two_docs) (tokens doc_a) [''cat''] (length (tokens doc_a)) = Num x \<and>
          bm25_score (BM25_new two_docs) [''cat'', ''cat'', ''sat''] [''cat'']
            (length [''cat'', ''cat'', ''sat'']) = Num y \<and> x \<le> y)"
proof -
  have l: "length [''cat'', ''cat'', ''sat''] = length (tokens doc_a)" by (simp add: doc_a_def)
  have f: "term_freq (tokens doc_a) ''cat'' = 1" "term_freq [''cat'', ''cat'', ''sat''] ''cat'' = 2"
    by (simp_all add: term_freq_def doc_a_def)
  then have m: "\<forall>t\<in>set [''cat'']. term_freq (tokens doc_a) t \<le> term_freq [''cat'', ''cat'', ''sat''] t"
    by simp
  from bm25_score_monotone [OF two_docs_index l m] two_docs_index l f
  show ?thesis by blast
qed

section \<open>Properties of the document store\<close>

lemma map_delete_absent: "\<not> map_has k m \<Longrightarrow> map_delete k m = m"
  by (induction m) (auto simp: map_has_def map_delete_def)

lemma map_delete_removes: "\<not> map_has k (map_delete k m)"
  by (auto simp: map_has_def map_delete_def)

subsection \<open>C10: deleting an absent document\<close>

text \<open>
  C10. For every identifier that is not a key of the document map, \<open>delete\<close> returns
  false and leaves the store as it is, the list of saved snapshots included, so that the
  persistence collaborator is not called; and whenever a call of \<open>delete\<close> does save,
  the identifier was a key, the call returns true and the key is gone.
\<close>

theorem delete_document_absent:
  "(\<not> map_has i (documents s) \<longrightarrow> delete_document i s = (False, s)) \<and>
   (saved (snd (delete_document i s)) \<noteq> saved s \<longrightarrow>
      map_has i (documents s) \<and> fst (delete_document i s) \<and>
      \<not> map_has i (documents (snd (delete_document i s))))"
  by (auto simp: delete_document_def Let_def map_delete_absent map_delete_removes persist_def)

theorem delete_document_absent_witness:
  "\<not> map_has ''zz'' (documents one_doc_store) \<and>
   delete_document ''zz'' one_doc_store = (False, one_doc_store) \<and>
   saved (snd (delete_document ''d1'' one_doc_store)) \<noteq> saved one_doc_store \<and>
   map_has ''d1'' (documents one_doc_store) \<and> fst (delete_document ''d1'' one_doc_store) \<and>
   \<not> map_has ''d1'' (documents (snd (delete_document ''d1'' one_doc_store)))"
proof -
  have a: "\<not> map_has ''zz'' (documents one_doc_store)"
    by (simp add: map_has_def one_doc_store_def)
  have b: "saved (snd (delete_document ''d1'' one_doc_store)) \<noteq> saved one_doc_store"
    by (simp add: delete_document_def map_has_def map_delete_def persist_def one_doc_store_def
        Let_def)
  from delete_document_absent [of "''zz''" one_doc_store]
    delete_document_absent [of "''d1''" one_doc_store] a b
  show ?thesis by blast
qed

section \<open>Properties of the upload route\<close>

lemma embeddings_loop_length:
  "embeddings_loop env texts i acc = Inr es \<Longrightarrow> length acc = min i (length texts) \<Longrightarrow>
   length es = length texts"
proof (induction env texts i acc rule: embeddings_loop.induct)
  case (1 env texts i embeddings)
  show ?case
  proof (cases "i < length texts")
    case False
    with 1(2,3) show ?thesis by (simp add: embeddings_loop.simps)
  next
    case True
    let ?batch = "take 100 (drop i texts)"
    from 1(2) True have nf: "\<not> embed_fails env ?batch"
      and r: "embeddings_loop env texts (i + 100) (embeddings @ map (embed_text env) ?batch) = Inr es"
      by (auto simp: embeddings_loop.simps [of env texts i] Let_def split: if_splits)
    have "length (embeddings @ map (embed_text env) ?batch) = min (i + 100) (length texts)"
      using 1(3) True by auto
    from 1(1) [OF True refl nf r this] show ?thesis .
  qed
qed

text \<open>
  A text of 802000 copies of one letter: the chunker cuts it every 800 characters, which
  gives more than 1000 chunks.
\<close>

lemma replace_ws_no_space: "\<forall>c\<in>set s. \<not> is_space c \<Longrightarrow> replace_ws s = s"
  by (induction s) auto

lemma trim_no_space: "\<forall>c\<in>set s. \<not> is_space c \<Longrightarrow> trim s = s"
proof -
  assume a: "\<forall>c\<in>set s. \<not> is_space c"
  have d: "dropWhile is_space t = t" if "\<forall>c\<in>set t. \<not> is_space c" for t
    using that by (cases t) auto
  have "dropWhile is_space (rev s) = rev s" using a by (intro d) auto
  then show ?thesis using a by (simp add: trim_def d)
qed

lemma lastIndexOf_absent:
  assumes "p \<noteq> []" and "hd p \<notin> set s"
  shows "lastIndexOf s p = - 1"
proof -
  have "take (length p) (drop i s) \<noteq> p" for i
  proof
    assume e: "take (length p) (drop i s) = p"
    have "hd p \<in> set p" using assms(1) by simp
    then have "hd p \<in> set (take (length p) (drop i s))" using e by simp
    then have "hd p \<in> set s" by (meson in_set_dropD in_set_takeD)
    with assms(2) show False by simp
  qed
  then have "filter (\<lambda>i. take (length p) (drop i s) = p) (rev [0..<Suc (length s)]) = []"
    by (simp add: filter_empty_conv)
  then show ?thesis by (simp only: lastIndexOf_def list.case)
qed

lemma substring_in_range:
  assumes "0 \<le> x" and "x \<le> y" and "y \<le> int (length s)"
  shows "substring s x y = take (nat (y - x)) (drop (nat x) s)"
  using assms by (simp add: substring_def Let_def min_def max_def)

lemma substring_replicate:
  assumes "0 \<le> x" and "x \<le> y" and "y \<le> int n"
  shows "substring (replicate n a) x y = replicate (nat (y - x)) a"
proof -
  have m: "min (nat (y - x)) (n - nat x) = nat (y - x)" using assms by linarith
  have "substring (replicate n a) x y = take (nat (y - x)) (drop (nat x) (replicate n a))"
    using assms by (intro substring_in_range) auto
  then show ?thesis by (simp add: m)
qed

lemma filler_props:
  "\<not> is_space filler" "filler \<noteq> CHR ''.''" "filler \<noteq> CHR ''!''" "filler \<noteq> CHR ''?''"
  by (simp_all add: filler_def is_space_def)

lemma cut_end_replicate:
  assumes "0 \<le> s" and "s + 1000 < int n"
  shows "cut_end (replicate n filler) 1000 s = s + 1000"
proof -
  let ?w = "substring (replicate n filler) (max s (s + 1000 - 200)) (s + 1000)"
  have w: "?w = replicate 200 filler"
    using assms by (simp add: substring_replicate)
  have "lastIndexOf ?w ''. '' = - 1" "lastIndexOf ?w ''! '' = - 1" "lastIndexOf ?w ''? '' = - 1"
    unfolding w using filler_props by (auto intro!: lastIndexOf_absent)
  then show ?thesis
    using assms by (simp add: cut_end_def Let_def)
qed

lemma chunk_loop_replicate_step:
  assumes "0 \<le> s" and "s + 1000 < int n"
  shows "chunk_loop (replicate n filler) 1000 200 s acc =
         chunk_loop (replicate n filler) 1000 200 (s + 800) (acc @ [replicate 1000 filler])"
proof -
  have lt: "s < int (length (replicate n filler))" using assms by simp
  have c: "cut_end (replicate n filler) 1000 s = s + 1000" using assms by (rule cut_end_replicate)
  have "substring (replicate n filler) s (s + 1000) = replicate 1000 filler"
    using assms by (simp add: substring_replicate)
  then have t: "trim (substring (replicate n filler) s (s + 1000)) = replicate 1000 filler"
    using filler_props(1) by (simp add: trim_no_space)
  have n: "next_start (replicate n filler) 1000 200 s = s + 800"
    by (simp add: next_start_def c Let_def)
  show ?thesis
    unfolding chunk_loop_step [OF lt] n c t by (simp add: Let_def)
qed

lemma chunk_loop_replicate_steps:
  "int (800 * k) + 200 < int n \<Longrightarrow>
   chunk_loop (replicate n filler) 1000 200 0 [] =
   chunk_loop (replicate n filler) 1000 200 (int (800 * k)) (replicate k (replicate 1000 filler))"
proof (induction k)
  case 0
  show ?case by simp
next
  case (Suc k)
  have "chunk_loop (replicate n filler) 1000 200 0 [] =
      chunk_loop (replicate n filler) 1000 200 (int (800 * k)) (replicate k (replicate 1000 filler))"
    using Suc by simp
  also have "\<dots> = chunk_loop (replicate n filler) 1000 200 (int (800 * k) + 800)
      (replicate k (replicate 1000 filler) @ [replicate 1000 filler])"
    using Suc.prems by (intro chunk_loop_replicate_step) auto
  finally show ?case
    by (simp add: replicate_append_same algebra_simps)
qed

lemma chunkText_replicate_many:
  assumes "int (800 * k) + 200 < int n" and "1000 < n"
  shows "\<exists>cs. chunkText (replicate n filler) 1000 200 = Some cs \<and> k \<le> length cs"
proof -
  let ?t = "replicate n filler"
  have ns: "\<forall>c\<in>set ?t. \<not> is_space c" using filler_props(1) by simp
  have norm: "normalizeText ?t = ?t"
    using ns by (simp add: normalizeText_def replace_ws_no_space trim_no_space)
  have tr: "trim ?t = ?t" using ns by (rule trim_no_space)
  have "chunkText ?t 1000 200 = chunk_loop ?t 1000 200 0 []"
    using assms(2) by (simp add: chunkText_def norm tr Let_def)
  also have "\<dots> = chunk_loop ?t 1000 200 (int (800 * k)) (replicate k (replicate 1000 filler))"
    using assms(1) by (rule chunk_loop_replicate_steps)
  finally have e: "chunkText ?t 1000 200 =
      chunk_loop ?t 1000 200 (int (800 * k)) (replicate k (replicate 1000 filler))" .
  obtain ys where "chunk_loop ?t 1000 200 (int (800 * k)) (replicate k (replicate 1000 filler)) =
      Some (replicate k (replicate 1000 filler) @ ys)"
    using chunk_loop_returns [of 1000] by (metis zero_less_numeral)
  with e show ?thesis by simp
qed

lemma parse_big: "parseFile big_file = Inr (replicate 802000 filler)"
  by (simp add: parseFile_def big_file_def parseText_def endsWith_def toLowerCase_def lower_char_def)

subsection \<open>C8: more than 1000 chunks\<close>

text \<open>
  C8. For every upload whose parsed text is cut into more than 1000 chunks, the handler
  answers with status 400 and a validation error, and the document store after the request
  is the store before it: no document is added and nothing is saved. When the file passes
  the size check, the error is the one that reports the number of chunks.
\<close>

theorem upload_rejects_too_many_chunks:
  assumes "parseFile file = Inr text"
    and "chunkText text 1000 200 = Some textChunks"
    and "1000 < length textChunks"
  shows "(\<exists>err. upload_POST env (Some file) store = Some (JsonError 400 err, store)) \<and>
         (file_size file \<le> 10 * 1024 * 1024 \<longrightarrow>
            upload_POST env (Some file) store =
              Some (JsonError 400 (TooManyChunks (length textChunks)), store))"
proof -
  have ne: "\<not> (text = [] \<or> length (trim text) = 0)"
  proof
    assume "text = [] \<or> length (trim text) = 0"
    then have "chunkText text 1000 200 = Some []" by (auto simp: chunkText_def)
    with assms(2,3) show False by simp
  qed
  show ?thesis
  proof (cases "file_size file > 10 * 1024 * 1024")
    case True
    then show ?thesis by (simp add: upload_POST_def)
  next
    case False
    then have "upload_POST env (Some file) store =
        Some (JsonError 400 (TooManyChunks (length textChunks)), store)"
      using assms ne by (simp add: upload_POST_def)
    then show ?thesis by simp
  qed
qed

theorem upload_rejects_too_many_chunks_witness:
  "parseFile big_file = Inr (replicate 802000 filler) \<and>
   (\<exists>cs. chunkText (replicate 802000 filler) 1000 200 = Some cs \<and> 1000 < length cs \<and>
      file_size big_file \<le> 10 * 1024 * 1024 \<and>
      upload_POST quiet_env (Some big_file) empty_store = Some (JsonError 400 (TooManyChunks (length cs)), empty_store))"
proof -
  obtain cs where cs: "chunkText (replicate 802000 filler) 1000 200 = Some cs" "1001 \<le> length cs"
    using chunkText_replicate_many [of 1001 802000] by auto
  then have l: "1000 < length cs" by simp
  have s: "file_size big_file \<le> 10 * 1024 * 1024" by (simp add: big_file_def)
  from upload_rejects_too_many_chunks [OF parse_big cs(1) l, of quiet_env empty_store] s
  have "upload_POST quiet_env (Some big_file) empty_store = Some (JsonError 400 (TooManyChunks (length cs)), empty_store)"
    by blast
  with parse_big cs(1) l s show ?thesis by blast
qed

section \<open>Properties of the cancellation endpoint\<close>

subsection \<open>C9: cancelling a request\<close>

text \<open>
  C9. For every request identifier: when no session with the identifier is registered, the
  endpoint answers not-found and the state is unchanged; when a session is registered, its
  signal is tripped, the session is removed from the registry at once and the other
  entries stay, so that a second cancellation of the same identifier answers not-found.
\<close>

theorem chat_DELETE_cancel:
  "(activeRequests s requestId = None \<longrightarrow>
      chat_DELETE requestId s = (Response 404 ''Request not found'', s)) \<and>
   (\<forall>controller. activeRequests s requestId = Some controller \<longrightarrow>
      fst (chat_DELETE requestId s) = Response 200 ''Request cancelled'' \<and>
      controller \<in> aborted (snd (chat_DELETE requestId s)) \<and>
      activeRequests (snd (chat_DELETE requestId s)) = (activeRequests s)(requestId := None) \<and>
      fst (chat_DELETE requestId (snd (chat_DELETE requestId s))) =
        Response 404 ''Request not found'')"
  by (auto simp: chat_DELETE_def)

theorem chat_DELETE_cancel_witness:
  "activeRequests chat_init ''r1'' = None \<and>
   chat_DELETE ''r1'' chat_init = (Response 404 ''Request not found'', chat_init) \<and>
   activeRequests (snd (chat_register ''r1'' chat_init)) ''r1'' = Some 0 \<and>
   fst (chat_DELETE ''r1'' (snd (chat_register ''r1'' chat_init))) = Response 200 ''Request cancelled'' \<and>
   0 \<in> aborted (snd (chat_DELETE ''r1'' (snd (chat_register ''r1'' chat_init)))) \<and>
   activeRequests (snd (chat_DELETE ''r1'' (snd (chat_register ''r1'' chat_init)))) ''r1'' = None \<and>
   fst (chat_DELETE ''r1'' (snd (chat_DELETE ''r1'' (snd (chat_register ''r1'' chat_init))))) =
     Response 404 ''Request not found''"
proof -
  have a: "activeRequests chat_init ''r1'' = None" by (simp add: chat_init_def)
  have b: "activeRequests (snd (chat_register ''r1'' chat_init)) ''r1'' = Some 0"
    by (simp add: chat_register_def chat_init_def Let_def)
  show ?thesis
    using chat_DELETE_cancel [of chat_init "''r1''"]
      chat_DELETE_cancel [of "snd (chat_register ''r1'' chat_init)" "''r1''"] a b
    by simp
qed

end
